theory Spec2Isabelle
  imports Complex_Main
begin

section \<open>Discount validation and payment settlement\<close>

text \<open>
  A shallow embedding of the settlement path of the order / discount / payment
  application: the storage services (\<open>OrderService\<close>, \<open>DiscountService\<close>,
  \<open>PaymentRecordService\<close> of \<open>lib/storage\<close>), the payment route
  (\<open>POST /payment\<close>) and the discount preview route (\<open>POST /discounts/validate\<close>).

  Modelling decisions, all of them visible in the definitions below:
  \<^item> The three database tables are lists of rows, in table order. A \<open>SELECT ... WHERE\<close>
    whose first row is used is \<open>find\<close>; an \<open>UPDATE ... WHERE\<close> is a \<open>map\<close> over the
    rows; an \<open>INSERT\<close> appends a row. No uniqueness of keys is assumed.
  \<^item> Every service function takes the database and the ones that write return the new
    database; the routes return their JSON response together with the database they
    leave behind.
  \<^item> Money amounts (\<open>DECIMAL(10,2)\<close> columns, JavaScript numbers in the routes) are
    exact rationals; the integer columns are unbounded integers. Rounding of binary
    floating point and the range of the SQL \<open>INTEGER\<close> type are outside the model.
  \<^item> Database calls do not fail: the catch-all branch of the routes (HTTP 500) is not
    modelled, and the tables exist (\<open>ensureDbInitialized\<close> has nothing to do).
  \<^item> What the routes draw from their environment is an explicit argument: the value of
    \<open>Math.random()\<close> read by the simulated gateway, the generated record id and the
    two clock readings.
  \<^item> The validator's messages are Chinese string literals in the source; they are the
    constructors of \<open>discount_message\<close> here, named after what they say.
\<close>

subsection \<open>Data model (lib/storage)\<close>

datatype order_status = Pending | Paid | Cancelled

datatype discount_status = Active | Used | Expired

record Order =
  orderId :: string
  paymentId :: string
  amount :: rat
  balance :: rat
  status :: order_status
  paymentMethod :: string
  description :: "string option"
  userId :: string
  createdAt :: nat
  updatedAt :: "nat option"

record Discount =
  discountId :: string
  code :: string
  balance :: rat
  isFullDiscount :: bool
  status :: discount_status
  description :: "string option"
  usageCount :: int
  maxUsage :: "int option"
  minAmount :: "rat option"
  createdAt :: nat

record PaymentRecord =
  recordId :: string
  paymentId :: string
  orderId :: string
  amount :: rat
  paidAmount :: rat
  discountAmount :: rat
  paymentMethod :: string
  userId :: string
  discountId :: string
  discountCode :: string
  paidAt :: nat
  orderDescription :: "string option"

text \<open>\<open>Omit<PaymentRecord, 'recordId' | 'paidAt'>\<close>, the argument of \<open>createPaymentRecord\<close>.\<close>

record PaymentRecordData =
  paymentId :: string
  orderId :: string
  amount :: rat
  paidAmount :: rat
  discountAmount :: rat
  paymentMethod :: string
  userId :: string
  discountId :: string
  discountCode :: string
  orderDescription :: "string option"

text \<open>
  \<open>Partial<Order>\<close>, the argument of \<open>updateOrder\<close>: a field that is absent (or
  \<open>undefined\<close>) is \<open>None\<close>. The keys \<open>orderId\<close> and \<open>createdAt\<close>, which
  \<open>updateOrder\<close> skips, and \<open>updatedAt\<close>, which it sets itself, are left out.
\<close>

record OrderUpdates =
  paymentId :: "string option"
  amount :: "rat option"
  balance :: "rat option"
  status :: "order_status option"
  paymentMethod :: "string option"
  description :: "string option"
  userId :: "string option"

record database =
  orders :: "Order list"
  discounts :: "Discount list"
  payment_records :: "PaymentRecord list"

subsection \<open>Order service\<close>

definition getOrder :: "string \<Rightarrow> database \<Rightarrow> Order option" where
  "getOrder oid db = find (\<lambda>r. Order.orderId r = oid) (orders db)"

definition no_updates :: OrderUpdates where
  "no_updates =
     \<lparr>OrderUpdates.paymentId = None, amount = None, balance = None, status = None,
      paymentMethod = None, description = None, userId = None\<rparr>"

definition set_column :: "'a option \<Rightarrow> 'a \<Rightarrow> 'a" where
  "set_column new old = (case new of None \<Rightarrow> old | Some v \<Rightarrow> v)"

text \<open>The \<open>SET\<close> clause built by \<open>updateOrder\<close>, applied to one row.\<close>

definition set_clause :: "OrderUpdates \<Rightarrow> nat \<Rightarrow> Order \<Rightarrow> Order" where
  "set_clause u now r =
     r\<lparr>Order.paymentId := set_column (OrderUpdates.paymentId u) (Order.paymentId r),
       Order.amount := set_column (OrderUpdates.amount u) (Order.amount r),
       Order.balance := set_column (OrderUpdates.balance u) (Order.balance r),
       Order.status := set_column (OrderUpdates.status u) (Order.status r),
       Order.paymentMethod := set_column (OrderUpdates.paymentMethod u) (Order.paymentMethod r),
       Order.description :=
         (case OrderUpdates.description u of None \<Rightarrow> Order.description r | Some v \<Rightarrow> Some v),
       Order.userId := set_column (OrderUpdates.userId u) (Order.userId r),
       Order.updatedAt := Some now\<rparr>"

definition updateOrder ::
  "string \<Rightarrow> OrderUpdates \<Rightarrow> nat \<Rightarrow> database \<Rightarrow> Order option \<times> database" where
  "updateOrder oid u now db =
     (if u = no_updates then (None, db)
      else
        let rows = map (\<lambda>r. if Order.orderId r = oid then set_clause u now r else r) (orders db)
        in (find (\<lambda>r. Order.orderId r = oid) rows, db\<lparr>orders := rows\<rparr>))"

subsection \<open>Discount service\<close>

text \<open>
  The four messages of \<open>validateDiscount\<close>, in the order of its checks: the code does
  not exist; the code is no longer valid; the usage limit of the code is reached; the
  order amount must reach the minimum (the message carries the minimum).
\<close>

datatype discount_message =
  CodeNotFound | CodeInactive | UsageExceeded | BelowMinimum rat

text \<open>\<open>{ valid: boolean; discount?: Discount; message?: string }\<close>\<close>

datatype validation = Valid Discount | Invalid discount_message

definition getDiscountByCode :: "string \<Rightarrow> database \<Rightarrow> Discount option" where
  "getDiscountByCode c db = find (\<lambda>r. Discount.code r = c) (discounts db)"

text \<open>
  The guards \<open>discount.maxUsage && ...\<close> and \<open>discount.minAmount && ...\<close> test
  an optional number for JavaScript truthiness: \<open>undefined\<close>, \<open>null\<close> and \<open>0\<close>
  are falsy, so the comparison is reached only for a value that is present and not 0.
\<close>

definition validateDiscount :: "string \<Rightarrow> rat \<Rightarrow> database \<Rightarrow> validation" where
  "validateDiscount c orderAmount db =
     (case getDiscountByCode c db of
        None \<Rightarrow> Invalid CodeNotFound
      | Some discount \<Rightarrow>
          if Discount.status discount \<noteq> Active then Invalid CodeInactive
          else if (case maxUsage discount of
                     None \<Rightarrow> False
                   | Some m \<Rightarrow> m \<noteq> 0 \<and> usageCount discount \<ge> m)
            then Invalid UsageExceeded
          else
            (case minAmount discount of
               None \<Rightarrow> Valid discount
             | Some m \<Rightarrow>
                 if m \<noteq> 0 \<and> orderAmount < m then Invalid (BelowMinimum m)
                 else Valid discount))"

text \<open>
  The validator as the specification words it: the usage cap and the minimum amount
  apply whenever they are set. It differs from \<open>validateDiscount\<close> only in the two
  guards, which do not test the stored value against 0.
\<close>

definition spec_validateDiscount :: "string \<Rightarrow> rat \<Rightarrow> database \<Rightarrow> validation" where
  "spec_validateDiscount c orderAmount db =
     (case getDiscountByCode c db of
        None \<Rightarrow> Invalid CodeNotFound
      | Some discount \<Rightarrow>
          if Discount.status discount \<noteq> Active then Invalid CodeInactive
          else if (case maxUsage discount of
                     None \<Rightarrow> False
                   | Some m \<Rightarrow> usageCount discount \<ge> m)
            then Invalid UsageExceeded
          else
            (case minAmount discount of
               None \<Rightarrow> Valid discount
             | Some m \<Rightarrow>
                 if orderAmount < m then Invalid (BelowMinimum m)
                 else Valid discount))"


definition applyDiscount :: "string \<Rightarrow> database \<Rightarrow> database" where
  "applyDiscount did db =
     db\<lparr>discounts :=
          map (\<lambda>r. if Discount.discountId r = did
                    then r\<lparr>usageCount := usageCount r + 1\<rparr> else r)
              (discounts db)\<rparr>"

subsection \<open>Payment record service\<close>

definition createPaymentRecord ::
  "PaymentRecordData \<Rightarrow> string \<Rightarrow> nat \<Rightarrow> database \<Rightarrow> PaymentRecord \<times> database" where
  "createPaymentRecord recordData rid now db =
     (let row =
        \<lparr>PaymentRecord.recordId = rid,
         paymentId = PaymentRecordData.paymentId recordData,
         orderId = PaymentRecordData.orderId recordData,
         amount = PaymentRecordData.amount recordData,
         paidAmount = PaymentRecordData.paidAmount recordData,
         discountAmount = PaymentRecordData.discountAmount recordData,
         paymentMethod = PaymentRecordData.paymentMethod recordData,
         userId = PaymentRecordData.userId recordData,
         discountId = PaymentRecordData.discountId recordData,
         discountCode = PaymentRecordData.discountCode recordData,
         paidAt = now,
         orderDescription = PaymentRecordData.orderDescription recordData\<rparr>
      in (row, db\<lparr>payment_records := payment_records db @ [row]\<rparr>))"

subsection \<open>JSON bodies and responses of the routes\<close>

text \<open>
  A response is \<open>{success: false, error}\<close> with its HTTP status, or
  \<open>{success: true, data}\<close>. The error text is a literal of the route or the
  message of the validator.
\<close>

datatype error_text = Text string | DiscountMessage discount_message

datatype 'a response = Failure nat error_text | Success 'a

text \<open>
  \<open>String.prototype.trim\<close> on the ASCII white space and line terminators (tab, line
  feed, vertical tab, form feed, carriage return, space).
\<close>

definition white_space :: "char \<Rightarrow> bool" where
  "white_space c =
     (c = CHR 0x09 \<or> c = CHR 0x0A \<or> c = CHR 0x0B \<or> c = CHR 0x0C \<or> c = CHR 0x0D \<or> c = CHR 0x20)"

definition trim :: "string \<Rightarrow> string" where
  "trim s = rev (dropWhile white_space (rev (dropWhile white_space s)))"

text \<open>
  Truthiness of a string field of a JSON body: a missing field (\<open>None\<close>) and the empty
  string are falsy.
\<close>

definition truthy :: "string option \<Rightarrow> bool" where
  "truthy x = (case x of None \<Rightarrow> False | Some s \<Rightarrow> s \<noteq> [])"

text \<open>\<open>x || ''\<close> on an optional string.\<close>

definition or_empty :: "string option \<Rightarrow> string" where
  "or_empty x = (case x of None \<Rightarrow> [] | Some s \<Rightarrow> s)"

text \<open>The test \<open>discountCode && discountCode.trim()\<close> of the payment route.\<close>

definition non_blank :: "string option \<Rightarrow> bool" where
  "non_blank x = (truthy x \<and> trim (or_empty x) \<noteq> [])"

record PaymentRequest =
  orderId :: "string option"
  discountCode :: "string option"
  paymentMethod :: "string option"
  userId :: "string option"

record PaymentResult =
  order :: "Order option"
  paymentRecord :: PaymentRecord
  discount :: "Discount option"
  originalAmount :: rat
  discountAmount :: rat
  finalAmount :: rat
  savings :: rat

record ValidateDiscountRequest =
  code :: "string option"
  amount :: "rat option"

record DiscountValidationResult =
  discount :: Discount
  originalAmount :: rat
  discountAmount :: rat
  finalAmount :: rat
  savings :: rat

text \<open>
  What one call of the payment route reads from outside: the value of \<open>Math.random()\<close>
  in \<open>simulatePayment\<close>, the id generated for the payment record, and the clock when
  the order is updated and when the record is written.
\<close>

record environment =
  random :: rat
  generatedId :: string
  updateTime :: nat
  paidTime :: nat

subsection \<open>Payment route (POST /payment)\<close>

definition simulatePayment :: "environment \<Rightarrow> string \<Rightarrow> rat \<Rightarrow> bool" where
  "simulatePayment env method amt = (random env > 0.05)"

text \<open>
  The discount block of the payment route: the pair \<open>(discountAmount, finalAmount)\<close>
  computed from the validated discount and \<open>order.amount\<close>, with both branches of the
  test on \<open>isFullDiscount\<close> as they are written.
\<close>

definition payment_amounts :: "Discount \<Rightarrow> rat \<Rightarrow> rat \<times> rat" where
  "payment_amounts d orderAmount =
     (if isFullDiscount d then
        (let discountAmount = min (Discount.balance d) orderAmount;
             finalAmount = max 0 (orderAmount - discountAmount)
         in (discountAmount, finalAmount))
      else
        (let discountAmount = min (Discount.balance d) orderAmount;
             finalAmount = max 0 (orderAmount - discountAmount)
         in (discountAmount, finalAmount)))"

text \<open>
  The discount phase: \<open>Inl\<close> is the early return on a rejected code; \<open>Inr\<close> carries
  the locals \<open>discountAmount\<close>, \<open>discount\<close>, \<open>finalAmount\<close> and the database after
  \<open>applyDiscount\<close>.
\<close>

definition discount_phase ::
  "string option \<Rightarrow> Order \<Rightarrow> database
     \<Rightarrow> PaymentResult response + (rat \<times> Discount option \<times> rat) \<times> database" where
  "discount_phase dc ord db =
     (if non_blank dc then
        (case validateDiscount (trim (or_empty dc)) (Order.amount ord) db of
           Invalid m \<Rightarrow> Inl (Failure 400 (DiscountMessage m))
         | Valid d \<Rightarrow>
             (let (discountAmount, finalAmount) = payment_amounts d (Order.amount ord)
              in Inr ((discountAmount, Some d, finalAmount),
                      applyDiscount (Discount.discountId d) db)))
      else Inr ((0, None, Order.amount ord), db))"

definition POST_payment ::
  "environment \<Rightarrow> PaymentRequest \<Rightarrow> database \<Rightarrow> PaymentResult response \<times> database" where
  "POST_payment env body db =
     (if \<not> truthy (PaymentRequest.orderId body) \<or> \<not> truthy (PaymentRequest.paymentMethod body)
         \<or> \<not> truthy (PaymentRequest.userId body)
      then (Failure 400 (Text ''OrderId, paymentMethod and userId are required''), db)
      else
        (case getOrder (or_empty (PaymentRequest.orderId body)) db of
           None \<Rightarrow> (Failure 404 (Text ''Order not found''), db)
         | Some ord \<Rightarrow>
             if Order.status ord \<noteq> Pending
               then (Failure 400 (Text ''Order is not pending''), db)
             else if Order.userId ord \<noteq> or_empty (PaymentRequest.userId body)
               then (Failure 403 (Text ''Unauthorized''), db)
             else
               (case discount_phase (discountCode body) ord db of
                  Inl failure \<Rightarrow> (failure, db)
                | Inr locals \<Rightarrow>
                    let ((discountAmount, discount, finalAmount), db1) = locals in
                    if \<not> simulatePayment env (or_empty (PaymentRequest.paymentMethod body))
                           finalAmount
                      then (Failure 400 (Text ''Payment failed''), db1)
                    else
                      (let (updatedOrder, db2) =
                             updateOrder (or_empty (PaymentRequest.orderId body))
                               (no_updates\<lparr>OrderUpdates.status := Some Paid,
                                  OrderUpdates.paymentMethod := PaymentRequest.paymentMethod body,
                                  OrderUpdates.balance := Some finalAmount\<rparr>)
                               (updateTime env) db1;
                           (paymentRecord, db3) =
                             createPaymentRecord
                               \<lparr>PaymentRecordData.paymentId = Order.paymentId ord,
                                orderId = Order.orderId ord,
                                amount = Order.amount ord,
                                paidAmount = finalAmount,
                                discountAmount = discountAmount,
                                paymentMethod = or_empty (PaymentRequest.paymentMethod body),
                                userId = or_empty (PaymentRequest.userId body),
                                discountId =
                                  or_empty (map_option Discount.discountId discount),
                                discountCode = or_empty (map_option trim (discountCode body)),
                                orderDescription = Some (or_empty (Order.description ord))\<rparr>
                               (generatedId env) (paidTime env) db2
                       in (Success
                             \<lparr>PaymentResult.order = updatedOrder,
                              paymentRecord = paymentRecord,
                              discount = discount,
                              originalAmount = Order.amount ord,
                              discountAmount = discountAmount,
                              finalAmount = finalAmount,
                              savings = discountAmount\<rparr>,
                           db3)))))"

subsection \<open>Discount preview route (POST /discounts/validate)\<close>

text \<open>
  The amounts of the preview: \<open>finalAmount\<close> starts as the request's amount and is
  overwritten; both branches as they are written.
\<close>

definition preview_amounts :: "Discount \<Rightarrow> rat \<Rightarrow> rat \<times> rat" where
  "preview_amounts d amt =
     (let finalAmount = amt in
      if isFullDiscount d then
        (let discountAmount = min (Discount.balance d) finalAmount;
             finalAmount = max 0 (finalAmount - discountAmount)
         in (discountAmount, finalAmount))
      else
        (let discountAmount = min (Discount.balance d) finalAmount;
             finalAmount = max 0 (finalAmount - discountAmount)
         in (discountAmount, finalAmount)))"

definition POST_validate ::
  "ValidateDiscountRequest \<Rightarrow> database \<Rightarrow> DiscountValidationResult response \<times> database" where
  "POST_validate body db =
     (case ValidateDiscountRequest.amount body of
        None \<Rightarrow> (Failure 400 (Text ''Code and amount are required''), db)
      | Some amt \<Rightarrow>
          if \<not> truthy (code body)
            then (Failure 400 (Text ''Code and amount are required''), db)
          else if amt \<le> 0
            then (Failure 400 (Text ''Amount must be greater than 0''), db)
          else
            (case validateDiscount (trim (or_empty (code body))) amt db of
               Invalid m \<Rightarrow> (Failure 400 (DiscountMessage m), db)
             | Valid d \<Rightarrow>
                 (let (discountAmount, finalAmount) = preview_amounts d amt
                  in (Success
                        \<lparr>DiscountValidationResult.discount = d,
                         originalAmount = amt,
                         discountAmount = discountAmount,
                         finalAmount = finalAmount,
                         savings = discountAmount\<rparr>,
                      db))))"

text \<open>Calling the preview route \<open>n\<close> times in a row with the same body.\<close>

fun preview_calls ::
  "nat \<Rightarrow> ValidateDiscountRequest \<Rightarrow> database
     \<Rightarrow> DiscountValidationResult response list \<times> database" where
  "preview_calls 0 body db = ([], db)"
| "preview_calls (Suc n) body db =
     (let (r, db1) = POST_validate body db;
          (rs, db2) = preview_calls n body db1
      in (r # rs, db2))"

subsection \<open>Sample data\<close>

text \<open>
  The scenarios of the specification: an order of 100 and an order of 10 of the same
  user, the code \<open>SAVE20\<close> worth 20 and the code \<open>BIG50\<close> worth 50.
\<close>

definition order100 :: Order where
  "order100 =
     \<lparr>Order.orderId = ''order_1'', paymentId = ''pay_1'', amount = 100, balance = 100,
      status = Pending, paymentMethod = ''pending'', description = None, userId = ''user_1'',
      createdAt = 1, updatedAt = None\<rparr>"

definition order10 :: Order where
  "order10 =
     \<lparr>Order.orderId = ''order_2'', paymentId = ''pay_2'', amount = 10, balance = 10,
      status = Pending, paymentMethod = ''pending'', description = Some ''tea'',
      userId = ''user_1'', createdAt = 2, updatedAt = None\<rparr>"

definition save20 :: Discount where
  "save20 =
     \<lparr>Discount.discountId = ''discount_1'', code = ''SAVE20'', balance = 20,
      isFullDiscount = False, status = Active, description = None, usageCount = 0,
      maxUsage = None, minAmount = None, createdAt = 3\<rparr>"

definition big50 :: Discount where
  "big50 =
     \<lparr>Discount.discountId = ''discount_2'', code = ''BIG50'', balance = 50,
      isFullDiscount = True, status = Active, description = None, usageCount = 4,
      maxUsage = Some 5, minAmount = Some 5, createdAt = 4\<rparr>"

text \<open>A code whose usage cap and minimum amount are both stored as 0.\<close>

definition zero_cap :: Discount where
  "zero_cap =
     \<lparr>Discount.discountId = ''discount_3'', code = ''FREE'', balance = 5,
      isFullDiscount = False, status = Active, description = None, usageCount = 7,
      maxUsage = Some 0, minAmount = Some 0, createdAt = 5\<rparr>"

definition shop :: database where
  "shop =
     \<lparr>orders = [order100, order10], discounts = [save20, big50, zero_cap],
      payment_records = []\<rparr>"

definition gateway_up :: environment where
  "gateway_up = \<lparr>random = 0.5, generatedId = ''payment_1'', updateTime = 7, paidTime = 8\<rparr>"

definition gateway_down :: environment where
  "gateway_down = \<lparr>random = 0.01, generatedId = ''payment_1'', updateTime = 7, paidTime = 8\<rparr>"

definition settle :: "string \<Rightarrow> string option \<Rightarrow> string \<Rightarrow> string \<Rightarrow> PaymentRequest" where
  "settle oid dc method uid =
     \<lparr>PaymentRequest.orderId = Some oid, discountCode = dc, paymentMethod = Some method,
      userId = Some uid\<rparr>"

text \<open>The order of 10 after it is paid in full by \<open>BIG50\<close>, and the record of that payment.\<close>

definition receipt10 :: PaymentRecord where
  "receipt10 =
     \<lparr>recordId = ''payment_1'', paymentId = ''pay_2'', orderId = ''order_2'', amount = 10,
      paidAmount = 0, discountAmount = 10, paymentMethod = ''alipay'', userId = ''user_1'',
      discountId = ''discount_2'', discountCode = ''BIG50'', paidAt = 8,
      orderDescription = Some ''tea''\<rparr>"

definition paid10 :: Order where
  "paid10 = order10\<lparr>Order.balance := 0, Order.status := Paid,
     Order.paymentMethod := ''alipay'', Order.updatedAt := Some 7\<rparr>"

definition settle10 :: PaymentRequest where
  "settle10 = settle ''order_2'' (Some '' BIG50 '') ''alipay'' ''user_1''"

definition settled10 :: PaymentResult where
  "settled10 =
     \<lparr>PaymentResult.order = Some paid10, paymentRecord = receipt10, discount = Some big50,
      originalAmount = 10, discountAmount = 10, finalAmount = 0, savings = 10\<rparr>"

definition shop_paid10 :: database where
  "shop_paid10 =
     \<lparr>orders = [order100, paid10], discounts = [save20, big50\<lparr>usageCount := 5\<rparr>, zero_cap],
      payment_records = [receipt10]\<rparr>"

definition preview10 :: ValidateDiscountRequest where
  "preview10 = \<lparr>code = Some ''BIG50'', amount = Some 10\<rparr>"

definition previewed10 :: DiscountValidationResult where
  "previewed10 =
     \<lparr>DiscountValidationResult.discount = big50, originalAmount = 10, discountAmount = 10,
      finalAmount = 0, savings = 10\<rparr>"

text \<open>The order of 100 settled with \<open>SAVE20\<close>.\<close>

definition settle100 :: PaymentRequest where
  "settle100 = settle ''order_1'' (Some ''SAVE20'') ''wechat'' ''user_1''"

text \<open>Requests that fail: an unknown order, another user, a code in the wrong case.\<close>

definition unknown_order :: PaymentRequest where
  "unknown_order = settle ''order_9'' None ''alipay'' ''user_1''"

definition stranger :: PaymentRequest where
  "stranger = settle ''order_1'' (Some ''SAVE20'') ''alipay'' ''user_2''"

definition bad_code :: PaymentRequest where
  "bad_code = settle ''order_1'' (Some ''save20'') ''alipay'' ''user_1''"

subsection \<open>Notions used to state the properties\<close>

text \<open>
  The database with the \<open>isFullDiscount\<close> flag of every discount row replaced by
  \<open>f\<close> of the row, and nothing else changed.
\<close>

definition with_flags :: "(Discount \<Rightarrow> bool) \<Rightarrow> database \<Rightarrow> database" where
  "with_flags f db = db\<lparr>discounts := map (\<lambda>d. d\<lparr>isFullDiscount := f d\<rparr>) (discounts db)\<rparr>"

text \<open>The amounts of a settlement result and of a preview result.\<close>

definition payment_breakdown :: "PaymentResult \<Rightarrow> rat \<times> rat \<times> rat \<times> rat" where
  "payment_breakdown r =
     (PaymentResult.originalAmount r, PaymentResult.discountAmount r,
      PaymentResult.finalAmount r, PaymentResult.savings r)"

definition preview_breakdown :: "DiscountValidationResult \<Rightarrow> rat \<times> rat \<times> rat \<times> rat" where
  "preview_breakdown r =
     (DiscountValidationResult.originalAmount r, DiscountValidationResult.discountAmount r,
      DiscountValidationResult.finalAmount r, DiscountValidationResult.savings r)"

section \<open>Properties\<close>

subsection \<open>The branches of the routes\<close>

lemma payment_amounts_eq:
  "payment_amounts d a = (min (Discount.balance d) a, a - min (Discount.balance d) a)"
  by (simp add: payment_amounts_def Let_def)

lemma preview_amounts_eq:
  "preview_amounts d a = (min (Discount.balance d) a, a - min (Discount.balance d) a)"
  by (simp add: preview_amounts_def Let_def)

lemma discount_phase_no_code:
  "\<not> non_blank dc \<Longrightarrow> discount_phase dc ord db = Inr ((0, None, Order.amount ord), db)"
  by (simp add: discount_phase_def)

lemma discount_phase_invalid:
  "non_blank dc \<Longrightarrow> validateDiscount (trim (or_empty dc)) (Order.amount ord) db = Invalid m
     \<Longrightarrow> discount_phase dc ord db = Inl (Failure 400 (DiscountMessage m))"
  by (simp add: discount_phase_def)

lemma discount_phase_valid:
  "non_blank dc \<Longrightarrow> validateDiscount (trim (or_empty dc)) (Order.amount ord) db = Valid d
     \<Longrightarrow> discount_phase dc ord db =
         Inr ((min (Discount.balance d) (Order.amount ord), Some d,
               Order.amount ord - min (Discount.balance d) (Order.amount ord)),
              applyDiscount (Discount.discountId d) db)"
  by (simp add: discount_phase_def payment_amounts_eq)

lemma discount_phase_cases:
  obtains
    (no_code) "\<not> non_blank dc" "discount_phase dc ord db = Inr ((0, None, Order.amount ord), db)"
  | (rejected) m where "non_blank dc"
      "validateDiscount (trim (or_empty dc)) (Order.amount ord) db = Invalid m"
      "discount_phase dc ord db = Inl (Failure 400 (DiscountMessage m))"
  | (accepted) d where "non_blank dc"
      "validateDiscount (trim (or_empty dc)) (Order.amount ord) db = Valid d"
      "discount_phase dc ord db =
         Inr ((min (Discount.balance d) (Order.amount ord), Some d,
               Order.amount ord - min (Discount.balance d) (Order.amount ord)),
              applyDiscount (Discount.discountId d) db)"
proof (cases "non_blank dc")
  case False
  then show ?thesis using no_code discount_phase_no_code by blast
next
  case True
  show ?thesis
  proof (cases "validateDiscount (trim (or_empty dc)) (Order.amount ord) db")
    case (Valid d)
    with True show ?thesis using accepted discount_phase_valid by blast
  next
    case (Invalid m)
    with True show ?thesis using rejected discount_phase_invalid by blast
  qed
qed

lemma POST_payment_required:
  "\<not> truthy (PaymentRequest.orderId body) \<or> \<not> truthy (PaymentRequest.paymentMethod body)
     \<or> \<not> truthy (PaymentRequest.userId body)
   \<Longrightarrow> POST_payment env body db =
        (Failure 400 (Text ''OrderId, paymentMethod and userId are required''), db)"
  unfolding POST_payment_def by (simp only: if_True)


lemma POST_payment_not_found:
  assumes "truthy (PaymentRequest.orderId body)" "truthy (PaymentRequest.paymentMethod body)"
    "truthy (PaymentRequest.userId body)"
    and "getOrder (or_empty (PaymentRequest.orderId body)) db = None"
  shows "POST_payment env body db = (Failure 404 (Text ''Order not found''), db)"
  unfolding POST_payment_def using assms by simp

lemma POST_payment_not_pending:
  assumes "truthy (PaymentRequest.orderId body)" "truthy (PaymentRequest.paymentMethod body)"
    "truthy (PaymentRequest.userId body)"
    and "getOrder (or_empty (PaymentRequest.orderId body)) db = Some ord"
    and "Order.status ord \<noteq> Pending"
  shows "POST_payment env body db = (Failure 400 (Text ''Order is not pending''), db)"
  unfolding POST_payment_def using assms by simp

lemma POST_payment_forbidden:
  assumes "truthy (PaymentRequest.orderId body)" "truthy (PaymentRequest.paymentMethod body)"
    "truthy (PaymentRequest.userId body)"
    and "getOrder (or_empty (PaymentRequest.orderId body)) db = Some ord"
    and "Order.status ord = Pending"
    and "Order.userId ord \<noteq> or_empty (PaymentRequest.userId body)"
  shows "POST_payment env body db = (Failure 403 (Text ''Unauthorized''), db)"
  unfolding POST_payment_def using assms by simp

lemma POST_payment_rejected:
  assumes "truthy (PaymentRequest.orderId body)" "truthy (PaymentRequest.paymentMethod body)"
    "truthy (PaymentRequest.userId body)"
    and "getOrder (or_empty (PaymentRequest.orderId body)) db = Some ord"
    and "Order.status ord = Pending"
    and "Order.userId ord = or_empty (PaymentRequest.userId body)"
    and "discount_phase (discountCode body) ord db = Inl failure"
  shows "POST_payment env body db = (failure, db)"
  unfolding POST_payment_def using assms by simp

lemma POST_payment_gateway_failed:
  assumes "truthy (PaymentRequest.orderId body)" "truthy (PaymentRequest.paymentMethod body)"
    "truthy (PaymentRequest.userId body)"
    and "getOrder (or_empty (PaymentRequest.orderId body)) db = Some ord"
    and "Order.status ord = Pending"
    and "Order.userId ord = or_empty (PaymentRequest.userId body)"
    and "discount_phase (discountCode body) ord db = Inr (locals, db1)"
    and "random env \<le> 0.05"
  shows "POST_payment env body db = (Failure 400 (Text ''Payment failed''), db1)"
  unfolding POST_payment_def using assms
  by (simp add: simulatePayment_def split_def)

lemma POST_payment_paid:
  assumes "truthy (PaymentRequest.orderId body)" "truthy (PaymentRequest.paymentMethod body)"
    "truthy (PaymentRequest.userId body)"
    and "getOrder (or_empty (PaymentRequest.orderId body)) db = Some ord"
    and "Order.status ord = Pending"
    and "Order.userId ord = or_empty (PaymentRequest.userId body)"
    and "discount_phase (discountCode body) ord db = Inr ((da, disc, fa), db1)"
    and "random env > 0.05"
    and "upd = updateOrder (or_empty (PaymentRequest.orderId body))
                 (no_updates\<lparr>OrderUpdates.status := Some Paid,
                    OrderUpdates.paymentMethod := PaymentRequest.paymentMethod body,
                    OrderUpdates.balance := Some fa\<rparr>)
                 (updateTime env) db1"
    and "ins = createPaymentRecord
                 \<lparr>PaymentRecordData.paymentId = Order.paymentId ord,
                  orderId = Order.orderId ord,
                  amount = Order.amount ord,
                  paidAmount = fa,
                  discountAmount = da,
                  paymentMethod = or_empty (PaymentRequest.paymentMethod body),
                  userId = or_empty (PaymentRequest.userId body),
                  discountId = or_empty (map_option Discount.discountId disc),
                  discountCode = or_empty (map_option trim (discountCode body)),
                  orderDescription = Some (or_empty (Order.description ord))\<rparr>
                 (generatedId env) (paidTime env) (snd upd)"
  shows "POST_payment env body db =
           (Success
              \<lparr>PaymentResult.order = fst upd, paymentRecord = fst ins, discount = disc,
               originalAmount = Order.amount ord, discountAmount = da, finalAmount = fa,
               savings = da\<rparr>,
            snd ins)"
  unfolding POST_payment_def using assms(1-8)
  by (simp add: simulatePayment_def split_def Let_def assms(9,10))


lemma POST_payment_cases:
  obtains
    (required)
      "POST_payment env body db =
         (Failure 400 (Text ''OrderId, paymentMethod and userId are required''), db)"
  | (not_found)
      "getOrder (or_empty (PaymentRequest.orderId body)) db = None"
      "POST_payment env body db = (Failure 404 (Text ''Order not found''), db)"
  | (not_pending) ord where
      "getOrder (or_empty (PaymentRequest.orderId body)) db = Some ord"
      "Order.status ord \<noteq> Pending"
      "POST_payment env body db = (Failure 400 (Text ''Order is not pending''), db)"
  | (forbidden) ord where
      "getOrder (or_empty (PaymentRequest.orderId body)) db = Some ord"
      "Order.status ord = Pending"
      "Order.userId ord \<noteq> or_empty (PaymentRequest.userId body)"
      "POST_payment env body db = (Failure 403 (Text ''Unauthorized''), db)"
  | (rejected) ord m where
      "getOrder (or_empty (PaymentRequest.orderId body)) db = Some ord"
      "non_blank (discountCode body)"
      "validateDiscount (trim (or_empty (discountCode body))) (Order.amount ord) db = Invalid m"
      "POST_payment env body db = (Failure 400 (DiscountMessage m), db)"
  | (gateway_failed) ord da disc fa db1 where
      "getOrder (or_empty (PaymentRequest.orderId body)) db = Some ord"
      "discount_phase (discountCode body) ord db = Inr ((da, disc, fa), db1)"
      "POST_payment env body db = (Failure 400 (Text ''Payment failed''), db1)"
  | (paid) ord da disc fa db1 upd ins where
      "getOrder (or_empty (PaymentRequest.orderId body)) db = Some ord"
      "discount_phase (discountCode body) ord db = Inr ((da, disc, fa), db1)"
      "upd = updateOrder (or_empty (PaymentRequest.orderId body))
                 (no_updates\<lparr>OrderUpdates.status := Some Paid,
                    OrderUpdates.paymentMethod := PaymentRequest.paymentMethod body,
                    OrderUpdates.balance := Some fa\<rparr>)
                 (updateTime env) db1"
      "ins = createPaymentRecord
                 \<lparr>PaymentRecordData.paymentId = Order.paymentId ord,
                  orderId = Order.orderId ord,
                  amount = Order.amount ord,
                  paidAmount = fa,
                  discountAmount = da,
                  paymentMethod = or_empty (PaymentRequest.paymentMethod body),
                  userId = or_empty (PaymentRequest.userId body),
                  discountId = or_empty (map_option Discount.discountId disc),
                  discountCode = or_empty (map_option trim (discountCode body)),
                  orderDescription = Some (or_empty (Order.description ord))\<rparr>
                 (generatedId env) (paidTime env) (snd upd)"
      "POST_payment env body db =
           (Success
              \<lparr>PaymentResult.order = fst upd, paymentRecord = fst ins, discount = disc,
               originalAmount = Order.amount ord, discountAmount = da, finalAmount = fa,
               savings = da\<rparr>,
            snd ins)"
proof (cases "truthy (PaymentRequest.orderId body) \<and> truthy (PaymentRequest.paymentMethod body)
               \<and> truthy (PaymentRequest.userId body)")
  case False
  then have "\<not> truthy (PaymentRequest.orderId body)
      \<or> \<not> truthy (PaymentRequest.paymentMethod body) \<or> \<not> truthy (PaymentRequest.userId body)"
    by simp
  then show ?thesis by (rule required [OF POST_payment_required])
next
  case True
  then have f1: "truthy (PaymentRequest.orderId body)"
    and f2: "truthy (PaymentRequest.paymentMethod body)"
    and f3: "truthy (PaymentRequest.userId body)"
    by simp_all
  show ?thesis
  proof (cases "getOrder (or_empty (PaymentRequest.orderId body)) db")
    case None
    show ?thesis by (rule not_found [OF None POST_payment_not_found [OF f1 f2 f3 None]])
  next
    case (Some ord)
    show ?thesis
    proof (cases "Order.status ord = Pending")
      case False
      show ?thesis
        by (rule not_pending [OF Some False POST_payment_not_pending [OF f1 f2 f3 Some False]])
    next
      case pending: True
      show ?thesis
      proof (cases "Order.userId ord = or_empty (PaymentRequest.userId body)")
        case False
        show ?thesis
          by (rule forbidden [OF Some pending False
                POST_payment_forbidden [OF f1 f2 f3 Some pending False]])
      next
        case owner: True
        note checked = f1 f2 f3 Some pending owner
        have after_phase: thesis
          if ph: "discount_phase (discountCode body) ord db = Inr ((da, disc, fa), db1)"
          for da disc fa db1
        proof (cases "random env \<le> 0.05")
          case True
          show ?thesis
            by (rule gateway_failed [OF Some ph POST_payment_gateway_failed [OF checked ph True]])
        next
          case False
          then have gt: "random env > 0.05" by simp
          show ?thesis
            by (rule paid [OF Some ph refl refl POST_payment_paid [OF checked ph gt refl refl]])
        qed
        show ?thesis
        proof (cases rule: discount_phase_cases [of "discountCode body" ord db])
          case invalid: (rejected m)
          show ?thesis
            by (rule rejected [OF Some invalid(1,2)
                  POST_payment_rejected [OF checked invalid(3)]])
        next
          case no_code
          show ?thesis by (rule after_phase [OF no_code(2)])
        next
          case (accepted d)
          show ?thesis by (rule after_phase [OF accepted(3)])
        qed
      qed
    qed
  qed
qed

lemma clamp_facts:
  fixes b a :: rat
  shows "max 0 (a - min b a) = a - min b a" "0 \<le> a - min b a" "(a - min b a = 0) = (a \<le> b)"
    "(a = min b a) = (a \<le> b)"
  by (auto simp add: min_def)

lemma POST_validate_missing:
  "ValidateDiscountRequest.amount body = None \<or> \<not> truthy (code body)
     \<Longrightarrow> POST_validate body db = (Failure 400 (Text ''Code and amount are required''), db)"
  unfolding POST_validate_def by (cases "ValidateDiscountRequest.amount body"; simp)

lemma POST_validate_not_positive:
  "ValidateDiscountRequest.amount body = Some amt \<Longrightarrow> truthy (code body) \<Longrightarrow> amt \<le> 0
     \<Longrightarrow> POST_validate body db = (Failure 400 (Text ''Amount must be greater than 0''), db)"
  unfolding POST_validate_def by simp

lemma POST_validate_invalid:
  "ValidateDiscountRequest.amount body = Some amt \<Longrightarrow> truthy (code body) \<Longrightarrow> 0 < amt
     \<Longrightarrow> validateDiscount (trim (or_empty (code body))) amt db = Invalid m
     \<Longrightarrow> POST_validate body db = (Failure 400 (DiscountMessage m), db)"
  unfolding POST_validate_def by simp

lemma POST_validate_valid:
  "ValidateDiscountRequest.amount body = Some amt \<Longrightarrow> truthy (code body) \<Longrightarrow> 0 < amt
     \<Longrightarrow> validateDiscount (trim (or_empty (code body))) amt db = Valid d
     \<Longrightarrow> POST_validate body db =
          (Success
             \<lparr>DiscountValidationResult.discount = d, originalAmount = amt,
              discountAmount = min (Discount.balance d) amt,
              finalAmount = amt - min (Discount.balance d) amt,
              savings = min (Discount.balance d) amt\<rparr>,
           db)"
  unfolding POST_validate_def by (simp add: preview_amounts_eq)

lemma POST_validate_cases:
  obtains
    (missing) "POST_validate body db = (Failure 400 (Text ''Code and amount are required''), db)"
  | (not_positive)
      "POST_validate body db = (Failure 400 (Text ''Amount must be greater than 0''), db)"
  | (invalid) amt m where "ValidateDiscountRequest.amount body = Some amt" "0 < amt"
      "validateDiscount (trim (or_empty (code body))) amt db = Invalid m"
      "POST_validate body db = (Failure 400 (DiscountMessage m), db)"
  | (valid) amt d where "ValidateDiscountRequest.amount body = Some amt" "0 < amt"
      "validateDiscount (trim (or_empty (code body))) amt db = Valid d"
      "POST_validate body db =
          (Success
             \<lparr>DiscountValidationResult.discount = d, originalAmount = amt,
              discountAmount = min (Discount.balance d) amt,
              finalAmount = amt - min (Discount.balance d) amt,
              savings = min (Discount.balance d) amt\<rparr>,
           db)"
proof (cases "ValidateDiscountRequest.amount body")
  case None
  then show ?thesis by (intro missing POST_validate_missing) simp
next
  case (Some amt)
  show ?thesis
  proof (cases "truthy (code body)")
    case False
    then show ?thesis by (intro missing POST_validate_missing) simp
  next
    case code: True
    show ?thesis
    proof (cases "amt \<le> 0")
      case True
      show ?thesis by (rule not_positive [OF POST_validate_not_positive [OF Some code True]])
    next
      case False
      then have pos: "0 < amt" by simp
      show ?thesis
      proof (cases "validateDiscount (trim (or_empty (code body))) amt db")
        case (Valid d)
        show ?thesis by (rule valid [OF Some pos Valid POST_validate_valid [OF Some code pos Valid]])
      next
        case (Invalid m)
        show ?thesis
          by (rule invalid [OF Some pos Invalid POST_validate_invalid [OF Some code pos Invalid]])
      qed
    qed
  qed
qed

lemma POST_validate_Success:
  assumes "POST_validate body db = (Success res, db')"
  obtains amt d where "ValidateDiscountRequest.amount body = Some amt" "0 < amt"
    "validateDiscount (trim (or_empty (code body))) amt db = Valid d"
    "res = \<lparr>DiscountValidationResult.discount = d, originalAmount = amt,
            discountAmount = min (Discount.balance d) amt,
            finalAmount = amt - min (Discount.balance d) amt,
            savings = min (Discount.balance d) amt\<rparr>"
    "db' = db"
proof (cases rule: POST_validate_cases [of body db])
  case (valid amt d)
  from valid(4) assms have
    "res = \<lparr>DiscountValidationResult.discount = d, originalAmount = amt,
            discountAmount = min (Discount.balance d) amt,
            finalAmount = amt - min (Discount.balance d) amt,
            savings = min (Discount.balance d) amt\<rparr>" "db' = db"
    by simp_all
  with valid(1-3) show ?thesis by (rule that)
qed (use assms in simp_all)

lemma POST_payment_Success:
  assumes "POST_payment env body db = (Success res, db')"
  obtains ord da disc fa db1 upd ins where
      "getOrder (or_empty (PaymentRequest.orderId body)) db = Some ord"
      "discount_phase (discountCode body) ord db = Inr ((da, disc, fa), db1)"
      "upd = updateOrder (or_empty (PaymentRequest.orderId body))
                 (no_updates\<lparr>OrderUpdates.status := Some Paid,
                    OrderUpdates.paymentMethod := PaymentRequest.paymentMethod body,
                    OrderUpdates.balance := Some fa\<rparr>)
                 (updateTime env) db1"
      "ins = createPaymentRecord
                 \<lparr>PaymentRecordData.paymentId = Order.paymentId ord,
                  orderId = Order.orderId ord,
                  amount = Order.amount ord,
                  paidAmount = fa,
                  discountAmount = da,
                  paymentMethod = or_empty (PaymentRequest.paymentMethod body),
                  userId = or_empty (PaymentRequest.userId body),
                  discountId = or_empty (map_option Discount.discountId disc),
                  discountCode = or_empty (map_option trim (discountCode body)),
                  orderDescription = Some (or_empty (Order.description ord))\<rparr>
                 (generatedId env) (paidTime env) (snd upd)"
      "PaymentResult.order res = fst upd" "paymentRecord res = fst ins"
      "PaymentResult.discount res = disc" "PaymentResult.originalAmount res = Order.amount ord"
      "PaymentResult.discountAmount res = da" "PaymentResult.finalAmount res = fa"
      "PaymentResult.savings res = da"
      "db' = snd ins"
proof (cases rule: POST_payment_cases [of env body db])
  case (paid ord da disc fa db1 upd ins)
  from paid(5) assms have
    res: "res = \<lparr>PaymentResult.order = fst upd, paymentRecord = fst ins, discount = disc,
               originalAmount = Order.amount ord, discountAmount = da, finalAmount = fa,
               savings = da\<rparr>"
    and db': "db' = snd ins" by simp_all
  show ?thesis
    by (rule that [OF paid(1-4) _ _ _ _ _ _ _ db']) (simp_all add: res)
qed (use assms in simp_all)

lemma discount_phase_Some:
  assumes "discount_phase dc ord db = Inr ((da, Some d, fa), db1)"
  shows "non_blank dc"
    and "validateDiscount (trim (or_empty dc)) (Order.amount ord) db = Valid d"
    and "da = min (Discount.balance d) (Order.amount ord)"
    and "fa = Order.amount ord - min (Discount.balance d) (Order.amount ord)"
    and "db1 = applyDiscount (Discount.discountId d) db"
  using assms by (cases rule: discount_phase_cases [of dc ord db]; simp)+

lemma discount_phase_None:
  assumes "discount_phase dc ord db = Inr ((da, None, fa), db1)"
  shows "\<not> non_blank dc" and "da = 0" and "fa = Order.amount ord" and "db1 = db"
  using assms by (cases rule: discount_phase_cases [of dc ord db]; simp)+

subsection \<open>The stores under the service functions\<close>

lemma find_map_preserving:
  "(\<And>x. P (f x) = P x) \<Longrightarrow> find P (map f xs) = map_option f (find P xs)"
  by (induction xs) simp_all

lemma validateDiscount_Valid_lookup:
  "validateDiscount c a db = Valid d \<Longrightarrow> getDiscountByCode c db = Some d"
  unfolding validateDiscount_def
  by (cases "getDiscountByCode c db") (simp_all split: if_splits option.splits)

lemma getDiscountByCode_applyDiscount:
  "getDiscountByCode c (applyDiscount did db) =
     map_option (\<lambda>r. if Discount.discountId r = did then r\<lparr>usageCount := usageCount r + 1\<rparr> else r)
       (getDiscountByCode c db)"
  unfolding getDiscountByCode_def applyDiscount_def
  by (simp add: find_map_preserving)

lemma applyDiscount_frame:
  "orders (applyDiscount did db) = orders db"
  "payment_records (applyDiscount did db) = payment_records db"
  by (simp_all add: applyDiscount_def)

lemma updateOrder_frame:
  "discounts (snd (updateOrder oid u now db)) = discounts db"
  "payment_records (snd (updateOrder oid u now db)) = payment_records db"
  by (simp_all add: updateOrder_def Let_def)

lemma createPaymentRecord_frame:
  "orders (snd (createPaymentRecord data rid now db)) = orders db"
  "discounts (snd (createPaymentRecord data rid now db)) = discounts db"
  "payment_records (snd (createPaymentRecord data rid now db)) =
     payment_records db @ [fst (createPaymentRecord data rid now db)]"
  by (simp_all add: createPaymentRecord_def Let_def)


lemma getDiscountByCode_cong:
  "discounts db' = discounts db \<Longrightarrow> getDiscountByCode c db' = getDiscountByCode c db"
  by (simp add: getDiscountByCode_def)


lemma POST_validate_frame: "snd (POST_validate body db) = db"
  by (cases rule: POST_validate_cases [of body db]) simp_all

lemma preview_calls_eq:
  "preview_calls n body db = (replicate n (fst (POST_validate body db)), db)"
proof (induction n)
  case 0
  show ?case by simp
next
  case (Suc n)
  obtain r where once: "POST_validate body db = (r, db)"
    using POST_validate_frame [of body db] by (cases "POST_validate body db") simp
  show ?case by (simp add: once Suc)
qed

subsection \<open>Replacing the flags of the discount rows\<close>

lemma getOrder_with_flags: "getOrder oid (with_flags f db) = getOrder oid db"
  by (simp add: getOrder_def with_flags_def)

lemma getDiscountByCode_with_flags:
  "getDiscountByCode c (with_flags f db) =
     map_option (\<lambda>d. d\<lparr>isFullDiscount := f d\<rparr>) (getDiscountByCode c db)"
  by (simp add: getDiscountByCode_def with_flags_def find_map_preserving)

lemma validateDiscount_with_flags:
  "validateDiscount c a (with_flags f db) =
     (case validateDiscount c a db of
        Valid d \<Rightarrow> Valid (d\<lparr>isFullDiscount := f d\<rparr>)
      | Invalid m \<Rightarrow> Invalid m)"
  unfolding validateDiscount_def getDiscountByCode_with_flags
  by (simp split: option.split)

lemma discount_phase_with_flags:
  "(discount_phase dc ord db = Inl x \<longrightarrow> discount_phase dc ord (with_flags f db) = Inl x)
   \<and> (discount_phase dc ord db = Inr ((da, disc, fa), db1) \<longrightarrow>
        (\<exists>disc' db1'. discount_phase dc ord (with_flags f db) = Inr ((da, disc', fa), db1')))"
proof (cases rule: discount_phase_cases [of dc ord db])
  case no_code
  then show ?thesis by (simp add: discount_phase_no_code)
next
  case (rejected m)
  from rejected(2)
  have "validateDiscount (trim (or_empty dc)) (Order.amount ord) (with_flags f db) = Invalid m"
    by (simp add: validateDiscount_with_flags)
  from discount_phase_invalid [OF rejected(1) this] rejected(3) show ?thesis by simp
next
  case (accepted d)
  from accepted(2)
  have "validateDiscount (trim (or_empty dc)) (Order.amount ord) (with_flags f db)
          = Valid (d\<lparr>isFullDiscount := f d\<rparr>)"
    by (simp add: validateDiscount_with_flags)
  from discount_phase_valid [OF accepted(1) this] accepted(3) show ?thesis by simp
qed

lemma POST_payment_with_flags:
  "map_response payment_breakdown (fst (POST_payment env body (with_flags f db))) =
   map_response payment_breakdown (fst (POST_payment env body db))"
proof (cases "truthy (PaymentRequest.orderId body) \<and> truthy (PaymentRequest.paymentMethod body)
               \<and> truthy (PaymentRequest.userId body)")
  case False
  then have "\<not> truthy (PaymentRequest.orderId body)
      \<or> \<not> truthy (PaymentRequest.paymentMethod body) \<or> \<not> truthy (PaymentRequest.userId body)"
    by simp
  then show ?thesis by (simp add: POST_payment_required)
next
  case True
  then have fields: "truthy (PaymentRequest.orderId body)"
    "truthy (PaymentRequest.paymentMethod body)" "truthy (PaymentRequest.userId body)"
    by simp_all
  show ?thesis
  proof (cases "getOrder (or_empty (PaymentRequest.orderId body)) db")
    case None
    then have "getOrder (or_empty (PaymentRequest.orderId body)) (with_flags f db) = None"
      by (simp add: getOrder_with_flags)
    from POST_payment_not_found [OF fields this] POST_payment_not_found [OF fields None]
    show ?thesis by simp
  next
    case (Some ord)
    then have Some': "getOrder (or_empty (PaymentRequest.orderId body)) (with_flags f db) = Some ord"
      by (simp add: getOrder_with_flags)
    show ?thesis
    proof (cases "Order.status ord = Pending")
      case False
      from POST_payment_not_pending [OF fields Some' False]
        POST_payment_not_pending [OF fields Some False]
      show ?thesis by simp
    next
      case pending: True
      show ?thesis
      proof (cases "Order.userId ord = or_empty (PaymentRequest.userId body)")
        case False
        from POST_payment_forbidden [OF fields Some' pending False]
          POST_payment_forbidden [OF fields Some pending False]
        show ?thesis by simp
      next
        case owner: True
        note checked = fields Some pending owner
        note checked' = fields Some' pending owner
        show ?thesis
        proof (cases "discount_phase (discountCode body) ord db")
          case (Inl x)
          with discount_phase_with_flags [of "discountCode body" ord db x f]
          have "discount_phase (discountCode body) ord (with_flags f db) = Inl x" by simp
          from POST_payment_rejected [OF checked' this] POST_payment_rejected [OF checked Inl]
          show ?thesis by simp
        next
          case (Inr y)
          obtain da disc fa db1 where y: "y = ((da, disc, fa), db1)"
            by (cases y) auto
          with Inr have ph: "discount_phase (discountCode body) ord db = Inr ((da, disc, fa), db1)"
            by simp
          with discount_phase_with_flags [of "discountCode body" ord db _ f da disc fa db1]
          obtain disc' db1' where
            ph': "discount_phase (discountCode body) ord (with_flags f db)
                    = Inr ((da, disc', fa), db1')"
            by blast
          show ?thesis
          proof (cases "random env \<le> 0.05")
            case True
            from POST_payment_gateway_failed [OF checked' ph' True]
              POST_payment_gateway_failed [OF checked ph True]
            show ?thesis by simp
          next
            case False
            then have up: "random env > 0.05" by simp
            from POST_payment_paid [OF checked' ph' up refl refl]
              POST_payment_paid [OF checked ph up refl refl]
            show ?thesis by (simp add: payment_breakdown_def)
          qed
        qed
      qed
    qed
  qed
qed

lemma POST_validate_with_flags:
  "map_response preview_breakdown (fst (POST_validate body (with_flags f db))) =
   map_response preview_breakdown (fst (POST_validate body db))"
proof (cases "ValidateDiscountRequest.amount body = None \<or> \<not> truthy (code body)")
  case True
  then show ?thesis by (simp add: POST_validate_missing)
next
  case False
  then obtain amt where amt: "ValidateDiscountRequest.amount body = Some amt"
    and code: "truthy (code body)" by auto
  show ?thesis
  proof (cases "amt \<le> 0")
    case True
    from POST_validate_not_positive [OF amt code True] show ?thesis by simp
  next
    case False
    then have pos: "0 < amt" by simp
    show ?thesis
    proof (cases "validateDiscount (trim (or_empty (code body))) amt db")
      case (Invalid m)
      then have "validateDiscount (trim (or_empty (code body))) amt (with_flags f db) = Invalid m"
        by (simp add: validateDiscount_with_flags)
      from POST_validate_invalid [OF amt code pos this]
        POST_validate_invalid [OF amt code pos Invalid]
      show ?thesis by simp
    next
      case (Valid d)
      then have "validateDiscount (trim (or_empty (code body))) amt (with_flags f db)
          = Valid (d\<lparr>isFullDiscount := f d\<rparr>)"
        by (simp add: validateDiscount_with_flags)
      from POST_validate_valid [OF amt code pos this]
        POST_validate_valid [OF amt code pos Valid]
      show ?thesis by (simp add: preview_breakdown_def)
    qed
  qed
qed

subsection \<open>Evaluation of the sample data\<close>

lemma preview_big50: "POST_validate preview10 shop = (Success previewed10, shop)"
  by code_simp

lemma settle_big50: "POST_payment gateway_up settle10 shop = (Success settled10, shop_paid10)"
  by code_simp

lemma settle100_checks:
  "truthy (PaymentRequest.orderId settle100)" "truthy (PaymentRequest.paymentMethod settle100)"
  "truthy (PaymentRequest.userId settle100)"
  "getOrder (or_empty (PaymentRequest.orderId settle100)) shop = Some order100"
  "Order.status order100 = Pending"
  "Order.userId order100 = or_empty (PaymentRequest.userId settle100)"
  "non_blank (discountCode settle100)"
  "validateDiscount (trim (or_empty (discountCode settle100))) (Order.amount order100) shop
     = Valid save20"
  "random gateway_down \<le> 0.05"
  by code_simp+

lemma sample_requests_truthy:
  "truthy (PaymentRequest.orderId unknown_order)"
  "truthy (PaymentRequest.paymentMethod unknown_order)"
  "truthy (PaymentRequest.userId unknown_order)"
  "truthy (PaymentRequest.orderId stranger)" "truthy (PaymentRequest.paymentMethod stranger)"
  "truthy (PaymentRequest.userId stranger)"
  "truthy (PaymentRequest.orderId bad_code)" "truthy (PaymentRequest.paymentMethod bad_code)"
  "truthy (PaymentRequest.userId bad_code)"
  "truthy (PaymentRequest.orderId settle10)" "truthy (PaymentRequest.paymentMethod settle10)"
  "truthy (PaymentRequest.userId settle10)"
  by code_simp+

lemma sample_orders:
  "getOrder (or_empty (PaymentRequest.orderId unknown_order)) shop = None"
  "getOrder (or_empty (PaymentRequest.orderId settle10)) shop_paid10 = Some paid10"
  "Order.status paid10 \<noteq> Pending"
  "getOrder (or_empty (PaymentRequest.orderId stranger)) shop = Some order100"
  "Order.userId order100 \<noteq> or_empty (PaymentRequest.userId stranger)"
  "getOrder (or_empty (PaymentRequest.orderId bad_code)) shop = Some order100"
  "Order.userId order100 = or_empty (PaymentRequest.userId bad_code)"
  "non_blank (discountCode bad_code)"
  "validateDiscount (trim (or_empty (discountCode bad_code))) (Order.amount order100) shop
     = Invalid CodeNotFound"
  by code_simp+

section \<open>The claims\<close>

text \<open>
  C1. Whenever the preview route or the payment route applies a valid discount, the
  discount amount is the smaller of the discount's balance and the order amount, the
  final amount is the larger of 0 and the order amount less the discount amount (so it
  is never negative, and it is 0 exactly when the balance covers the order amount), and
  the savings are the discount amount. The order amount of the preview is the positive
  amount of the request; that of the payment route is the amount of the stored order.
\<close>

theorem discount_amounts:
  "(POST_validate vbody db = (Success vres, vdb) \<longrightarrow>
      ValidateDiscountRequest.amount vbody = Some (DiscountValidationResult.originalAmount vres)
      \<and> DiscountValidationResult.discountAmount vres =
          min (Discount.balance (DiscountValidationResult.discount vres))
              (DiscountValidationResult.originalAmount vres)
      \<and> DiscountValidationResult.finalAmount vres =
          max 0 (DiscountValidationResult.originalAmount vres
                   - DiscountValidationResult.discountAmount vres)
      \<and> 0 \<le> DiscountValidationResult.finalAmount vres
      \<and> (DiscountValidationResult.finalAmount vres = 0 \<longleftrightarrow>
           DiscountValidationResult.originalAmount vres
             \<le> Discount.balance (DiscountValidationResult.discount vres))
      \<and> DiscountValidationResult.savings vres = DiscountValidationResult.discountAmount vres)
   \<and> (POST_payment env body db = (Success res, db') \<longrightarrow>
      PaymentResult.discount res = Some d \<longrightarrow>
      map_option Order.amount (getOrder (or_empty (PaymentRequest.orderId body)) db)
          = Some (PaymentResult.originalAmount res)
      \<and> PaymentResult.discountAmount res =
          min (Discount.balance d) (PaymentResult.originalAmount res)
      \<and> PaymentResult.finalAmount res =
          max 0 (PaymentResult.originalAmount res - PaymentResult.discountAmount res)
      \<and> 0 \<le> PaymentResult.finalAmount res
      \<and> (PaymentResult.finalAmount res = 0 \<longleftrightarrow>
           PaymentResult.originalAmount res \<le> Discount.balance d)
      \<and> PaymentResult.savings res = PaymentResult.discountAmount res)"
proof (rule conjI; intro impI)
  assume "POST_validate vbody db = (Success vres, vdb)"
  then obtain amt d where
    "ValidateDiscountRequest.amount vbody = Some amt" "0 < amt"
    "validateDiscount (trim (or_empty (code vbody))) amt db = Valid d"
    "vres = \<lparr>DiscountValidationResult.discount = d, originalAmount = amt,
            discountAmount = min (Discount.balance d) amt,
            finalAmount = amt - min (Discount.balance d) amt,
            savings = min (Discount.balance d) amt\<rparr>" "vdb = db"
    by (rule POST_validate_Success)
  then show "ValidateDiscountRequest.amount vbody = Some (DiscountValidationResult.originalAmount vres)
      \<and> DiscountValidationResult.discountAmount vres =
          min (Discount.balance (DiscountValidationResult.discount vres))
              (DiscountValidationResult.originalAmount vres)
      \<and> DiscountValidationResult.finalAmount vres =
          max 0 (DiscountValidationResult.originalAmount vres
                   - DiscountValidationResult.discountAmount vres)
      \<and> 0 \<le> DiscountValidationResult.finalAmount vres
      \<and> (DiscountValidationResult.finalAmount vres = 0 \<longleftrightarrow>
           DiscountValidationResult.originalAmount vres
             \<le> Discount.balance (DiscountValidationResult.discount vres))
      \<and> DiscountValidationResult.savings vres = DiscountValidationResult.discountAmount vres"
    by (simp add: clamp_facts)
next
  assume paid: "POST_payment env body db = (Success res, db')"
    and used: "PaymentResult.discount res = Some d"
  from paid show "map_option Order.amount (getOrder (or_empty (PaymentRequest.orderId body)) db)
          = Some (PaymentResult.originalAmount res)
      \<and> PaymentResult.discountAmount res =
          min (Discount.balance d) (PaymentResult.originalAmount res)
      \<and> PaymentResult.finalAmount res =
          max 0 (PaymentResult.originalAmount res - PaymentResult.discountAmount res)
      \<and> 0 \<le> PaymentResult.finalAmount res
      \<and> (PaymentResult.finalAmount res = 0 \<longleftrightarrow>
           PaymentResult.originalAmount res \<le> Discount.balance d)
      \<and> PaymentResult.savings res = PaymentResult.discountAmount res"
  proof (cases rule: POST_payment_Success)
    case (1 ord da disc fa db1 upd ins)
    from used 1(2,7)
    have "discount_phase (discountCode body) ord db = Inr ((da, Some d, fa), db1)"
      by simp
    note amounts = discount_phase_Some(3,4) [OF this]
    with 1(1,8-11) show ?thesis
      by (simp add: clamp_facts)
  qed
qed

theorem discount_amounts_witness:
  "POST_validate preview10 shop = (Success previewed10, shop)
   \<and> DiscountValidationResult.discountAmount previewed10 = 10
   \<and> DiscountValidationResult.finalAmount previewed10 = 0
   \<and> POST_payment gateway_up settle10 shop = (Success settled10, shop_paid10)
   \<and> PaymentResult.discount settled10 = Some big50
   \<and> PaymentResult.discountAmount settled10 = min (Discount.balance big50) 10
   \<and> PaymentResult.finalAmount settled10 = 0
   \<and> Order.amount order10 \<le> Discount.balance big50"
  using discount_amounts [of preview10 shop previewed10 shop gateway_up settle10 settled10
      shop_paid10 big50]
    preview_big50 settle_big50
  by (simp add: settled10_def previewed10_def big50_def order10_def)

text \<open>
  C2. When the required fields are given, the order exists, is pending and belongs to
  the requesting user, the non-blank discount code passes validation and the simulated
  gateway declines (\<open>Math.random()\<close> at most 0.05), settlement answers
  \<open>Payment failed\<close> (HTTP 400) and leaves behind the database in which the usage
  count of the validated discount is one more than before: the increment is committed
  and not rolled back. The order table and the payment records are as before, so the
  order is not updated and no record is created.
\<close>

theorem gateway_failure_keeps_usage_increment:
  assumes "truthy (PaymentRequest.orderId body)" "truthy (PaymentRequest.paymentMethod body)"
    "truthy (PaymentRequest.userId body)"
    and "getOrder (or_empty (PaymentRequest.orderId body)) db = Some ord"
    and "Order.status ord = Pending"
    and "Order.userId ord = or_empty (PaymentRequest.userId body)"
    and "non_blank (discountCode body)"
    and "validateDiscount (trim (or_empty (discountCode body))) (Order.amount ord) db = Valid d"
    and "random env \<le> 0.05"
  shows "POST_payment env body db =
           (Failure 400 (Text ''Payment failed''), applyDiscount (Discount.discountId d) db)
    \<and> getDiscountByCode (trim (or_empty (discountCode body)))
          (applyDiscount (Discount.discountId d) db) = Some (d\<lparr>usageCount := usageCount d + 1\<rparr>)
    \<and> getDiscountByCode (trim (or_empty (discountCode body))) db = Some d
    \<and> orders (applyDiscount (Discount.discountId d) db) = orders db
    \<and> payment_records (applyDiscount (Discount.discountId d) db) = payment_records db"
proof -
  have "POST_payment env body db =
           (Failure 400 (Text ''Payment failed''), applyDiscount (Discount.discountId d) db)"
    by (rule POST_payment_gateway_failed
          [OF assms(1-6) discount_phase_valid [OF assms(7,8)] assms(9)])
  moreover have "getDiscountByCode (trim (or_empty (discountCode body))) db = Some d"
    by (rule validateDiscount_Valid_lookup [OF assms(8)])
  ultimately show ?thesis
    by (simp add: getDiscountByCode_applyDiscount applyDiscount_frame)
qed

theorem gateway_failure_keeps_usage_increment_witness:
  "POST_payment gateway_down settle100 shop =
     (Failure 400 (Text ''Payment failed''), applyDiscount ''discount_1'' shop)
   \<and> getDiscountByCode ''SAVE20'' (applyDiscount ''discount_1'' shop) =
       Some (save20\<lparr>usageCount := 1\<rparr>)
   \<and> getDiscountByCode ''SAVE20'' shop = Some save20
   \<and> orders (applyDiscount ''discount_1'' shop) = orders shop
   \<and> payment_records (applyDiscount ''discount_1'' shop) = []"
proof -
  have "trim (or_empty (discountCode settle100)) = ''SAVE20''"
    "Discount.discountId save20 = ''discount_1''" "usageCount save20 + 1 = 1"
    "payment_records shop = []"
    by code_simp+
  with gateway_failure_keeps_usage_increment [OF settle100_checks]
  show ?thesis by simp
qed



text \<open>
  C4. With the required fields given, settlement checks in a fixed order and the first
  failure decides the response, whatever the later checks would say: no order with the
  given id gives \<open>Order not found\<close> (404); an order that is not pending gives
  \<open>Order is not pending\<close> (400), whoever asks; a pending order of another user gives
  \<open>Unauthorized\<close> (403). Only when all three checks pass is the discount phase
  reached: then the response is none of these three, and a non-blank code that the
  validator rejects gives the validator's message (400).
\<close>

theorem precondition_order:
  assumes "truthy (PaymentRequest.orderId body)" "truthy (PaymentRequest.paymentMethod body)"
    "truthy (PaymentRequest.userId body)"
  shows
    "(getOrder (or_empty (PaymentRequest.orderId body)) db = None \<longrightarrow>
        POST_payment env body db = (Failure 404 (Text ''Order not found''), db))
     \<and> (\<forall>ord. getOrder (or_empty (PaymentRequest.orderId body)) db = Some ord \<longrightarrow>
          Order.status ord \<noteq> Pending \<longrightarrow>
          POST_payment env body db = (Failure 400 (Text ''Order is not pending''), db))
     \<and> (\<forall>ord. getOrder (or_empty (PaymentRequest.orderId body)) db = Some ord \<longrightarrow>
          Order.status ord = Pending \<longrightarrow>
          Order.userId ord \<noteq> or_empty (PaymentRequest.userId body) \<longrightarrow>
          POST_payment env body db = (Failure 403 (Text ''Unauthorized''), db))
     \<and> (\<forall>ord. getOrder (or_empty (PaymentRequest.orderId body)) db = Some ord \<longrightarrow>
          Order.status ord = Pending \<longrightarrow>
          Order.userId ord = or_empty (PaymentRequest.userId body) \<longrightarrow>
          fst (POST_payment env body db) \<noteq> Failure 404 (Text ''Order not found'')
          \<and> fst (POST_payment env body db) \<noteq> Failure 400 (Text ''Order is not pending'')
          \<and> fst (POST_payment env body db) \<noteq> Failure 403 (Text ''Unauthorized'')
          \<and> (\<forall>m. non_blank (discountCode body) \<longrightarrow>
                validateDiscount (trim (or_empty (discountCode body))) (Order.amount ord) db
                  = Invalid m \<longrightarrow>
                POST_payment env body db = (Failure 400 (DiscountMessage m), db)))"
proof (intro conjI allI impI)
  assume "getOrder (or_empty (PaymentRequest.orderId body)) db = None"
  then show "POST_payment env body db = (Failure 404 (Text ''Order not found''), db)"
    by (rule POST_payment_not_found [OF assms])
next
  fix ord
  assume "getOrder (or_empty (PaymentRequest.orderId body)) db = Some ord"
    and "Order.status ord \<noteq> Pending"
  then show "POST_payment env body db = (Failure 400 (Text ''Order is not pending''), db)"
    by (rule POST_payment_not_pending [OF assms])
next
  fix ord
  assume "getOrder (or_empty (PaymentRequest.orderId body)) db = Some ord"
    and "Order.status ord = Pending"
    and "Order.userId ord \<noteq> or_empty (PaymentRequest.userId body)"
  then show "POST_payment env body db = (Failure 403 (Text ''Unauthorized''), db)"
    by (rule POST_payment_forbidden [OF assms])
next
  fix ord
  assume checked: "getOrder (or_empty (PaymentRequest.orderId body)) db = Some ord"
    "Order.status ord = Pending"
    "Order.userId ord = or_empty (PaymentRequest.userId body)"
  have later: "fst (POST_payment env body db) \<noteq> Failure 404 (Text ''Order not found'')
      \<and> fst (POST_payment env body db) \<noteq> Failure 400 (Text ''Order is not pending'')
      \<and> fst (POST_payment env body db) \<noteq> Failure 403 (Text ''Unauthorized'')"
  proof (cases rule: discount_phase_cases [of "discountCode body" ord db])
    case (rejected m)
    from POST_payment_rejected [OF assms checked rejected(3)] show ?thesis by simp
  next
    case no_code
    show ?thesis
    proof (cases "random env \<le> 0.05")
      case True
      from POST_payment_gateway_failed [OF assms checked no_code(2) True]
      show ?thesis by simp
    next
      case False
      then have "random env > 0.05" by simp
      from POST_payment_paid [OF assms checked no_code(2) this refl refl]
      show ?thesis by simp
    qed
  next
    case (accepted d)
    show ?thesis
    proof (cases "random env \<le> 0.05")
      case True
      from POST_payment_gateway_failed [OF assms checked accepted(3) True]
      show ?thesis by simp
    next
      case False
      then have "random env > 0.05" by simp
      from POST_payment_paid [OF assms checked accepted(3) this refl refl]
      show ?thesis by simp
    qed
  qed
  from later show "fst (POST_payment env body db) \<noteq> Failure 404 (Text ''Order not found'')"
    and "fst (POST_payment env body db) \<noteq> Failure 400 (Text ''Order is not pending'')"
    and "fst (POST_payment env body db) \<noteq> Failure 403 (Text ''Unauthorized'')"
    by simp_all
  fix m
  assume "non_blank (discountCode body)"
    and "validateDiscount (trim (or_empty (discountCode body))) (Order.amount ord) db = Invalid m"
  then have "discount_phase (discountCode body) ord db = Inl (Failure 400 (DiscountMessage m))"
    by (rule discount_phase_invalid)
  then show "POST_payment env body db = (Failure 400 (DiscountMessage m), db)"
    by (rule POST_payment_rejected [OF assms checked])
qed

theorem precondition_order_witness:
  "POST_payment gateway_up unknown_order shop = (Failure 404 (Text ''Order not found''), shop)
   \<and> POST_payment gateway_up settle10 shop_paid10 =
       (Failure 400 (Text ''Order is not pending''), shop_paid10)
   \<and> POST_payment gateway_up stranger shop = (Failure 403 (Text ''Unauthorized''), shop)
   \<and> POST_payment gateway_up bad_code shop = (Failure 400 (DiscountMessage CodeNotFound), shop)"
proof (intro conjI)
  show "POST_payment gateway_up unknown_order shop = (Failure 404 (Text ''Order not found''), shop)"
    using precondition_order [OF sample_requests_truthy(1-3), of shop gateway_up]
      sample_orders(1) by simp
  show "POST_payment gateway_up settle10 shop_paid10 =
       (Failure 400 (Text ''Order is not pending''), shop_paid10)"
    using precondition_order [OF sample_requests_truthy(10-12), of shop_paid10 gateway_up]
      sample_orders(2,3) by simp
  show "POST_payment gateway_up stranger shop = (Failure 403 (Text ''Unauthorized''), shop)"
    using precondition_order [OF sample_requests_truthy(4-6), of shop gateway_up]
      sample_orders(4,5) settle100_checks(5) by simp
  show "POST_payment gateway_up bad_code shop = (Failure 400 (DiscountMessage CodeNotFound), shop)"
    using precondition_order [OF sample_requests_truthy(7-9), of shop gateway_up]
      sample_orders(6-9) settle100_checks(5) by simp
qed



text \<open>
  C6. The flag \<open>isFullDiscount\<close> has no effect on the amounts. Setting the flag of a
  discount to any value leaves the pair computed by the payment route and the pair
  computed by the preview route unchanged; and replacing the flags of all discount rows
  of the database in any way leaves the response of both routes unchanged up to the
  discount record embedded in it: same failure, or success with the same original
  amount, discount amount, final amount and savings.
\<close>

theorem isFullDiscount_has_no_effect:
  "payment_amounts (d\<lparr>isFullDiscount := b\<rparr>) a = payment_amounts d a
   \<and> preview_amounts (d\<lparr>isFullDiscount := b\<rparr>) a = preview_amounts d a
   \<and> map_response payment_breakdown (fst (POST_payment env body (with_flags f db))) =
       map_response payment_breakdown (fst (POST_payment env body db))
   \<and> map_response preview_breakdown (fst (POST_validate vbody (with_flags f db))) =
       map_response preview_breakdown (fst (POST_validate vbody db))"
  by (simp add: payment_amounts_eq preview_amounts_eq POST_payment_with_flags
        POST_validate_with_flags)

theorem isFullDiscount_has_no_effect_witness:
  "payment_amounts (big50\<lparr>isFullDiscount := False\<rparr>) 10 = (10, 0)
   \<and> payment_amounts big50 10 = (10, 0)
   \<and> isFullDiscount big50
   \<and> map_response payment_breakdown
        (fst (POST_payment gateway_up settle10 (with_flags (\<lambda>d. \<not> isFullDiscount d) shop)))
       = Success (10, 10, 0, 10)
   \<and> map_response preview_breakdown
        (fst (POST_validate preview10 (with_flags (\<lambda>d. \<not> isFullDiscount d) shop)))
       = Success (10, 10, 0, 10)"
proof -
  have "payment_amounts big50 10 = (10, 0)" "isFullDiscount big50"
    "payment_breakdown settled10 = (10, 10, 0, 10)"
    "preview_breakdown previewed10 = (10, 10, 0, 10)"
    by code_simp+
  with isFullDiscount_has_no_effect
         [where d = big50 and b = False and a = 10 and env = gateway_up and body = settle10
            and f = "\<lambda>d. \<not> isFullDiscount d" and db = shop and vbody = preview10]
    settle_big50 preview_big50
  show ?thesis by simp
qed

text \<open>
  C7, as amended. For a positive order amount, \<open>validateDiscount\<close> returns the
  looked-up record, unchanged, exactly when the code exists (equality of strings), the
  status is active, the usage cap is unset or 0 or the usage count is below it, and the
  minimum amount is unset or at most the order amount. Otherwise it returns the first
  applicable reason in the order: code not found; inactive; usage exceeded (the cap is
  set, not 0, and at most the usage count); below minimum (carrying the minimum).

  The claim as stated excludes the cap 0: the counterexample below is a code with
  \<open>maxUsage = 0\<close> and \<open>usageCount = 7\<close> that the validator accepts, while the
  validator worded as in the specification rejects it with usage exceeded.
\<close>

theorem validateDiscount_characterisation:
  assumes "0 < orderAmount"
  shows "(validateDiscount c orderAmount db = Valid d \<longleftrightarrow>
            getDiscountByCode c db = Some d \<and> Discount.status d = Active
            \<and> (case maxUsage d of None \<Rightarrow> True | Some k \<Rightarrow> k = 0 \<or> usageCount d < k)
            \<and> (case minAmount d of None \<Rightarrow> True | Some k \<Rightarrow> k \<le> orderAmount))
    \<and> (validateDiscount c orderAmount db = Invalid CodeNotFound \<longleftrightarrow>
            getDiscountByCode c db = None)
    \<and> (validateDiscount c orderAmount db = Invalid CodeInactive \<longleftrightarrow>
            (\<exists>r. getDiscountByCode c db = Some r \<and> Discount.status r \<noteq> Active))
    \<and> (validateDiscount c orderAmount db = Invalid UsageExceeded \<longleftrightarrow>
            (\<exists>r k. getDiscountByCode c db = Some r \<and> Discount.status r = Active
               \<and> maxUsage r = Some k \<and> k \<noteq> 0 \<and> k \<le> usageCount r))
    \<and> (validateDiscount c orderAmount db = Invalid (BelowMinimum m) \<longleftrightarrow>
            (\<exists>r. getDiscountByCode c db = Some r \<and> Discount.status r = Active
               \<and> (case maxUsage r of None \<Rightarrow> True | Some k \<Rightarrow> k = 0 \<or> usageCount r < k)
               \<and> minAmount r = Some m \<and> orderAmount < m))"
proof (cases "getDiscountByCode c db")
  case None
  then show ?thesis by (simp add: validateDiscount_def)
next
  case (Some r)
  show ?thesis
  proof (cases "Discount.status r = Active")
    case False
    with Some show ?thesis by (auto simp add: validateDiscount_def)
  next
    case True
    with Some assms show ?thesis
      unfolding validateDiscount_def
      by (cases "maxUsage r"; cases "minAmount r"; auto)
  qed
qed

theorem validateDiscount_characterisation_witness:
  "(0::rat) < 10 \<and> validateDiscount ''FREE'' 10 shop = Valid zero_cap
   \<and> validateDiscount ''save20'' 10 shop = Invalid CodeNotFound
   \<and> validateDiscount ''BIG50'' 4 shop = Invalid (BelowMinimum 5)"
proof -
  have pos: "(0::rat) < 10" "(0::rat) < 4" by simp_all
  have "getDiscountByCode ''FREE'' shop = Some zero_cap" "Discount.status zero_cap = Active"
    "maxUsage zero_cap = Some 0" "minAmount zero_cap = Some 0"
    "getDiscountByCode ''save20'' shop = None"
    "getDiscountByCode ''BIG50'' shop = Some big50" "Discount.status big50 = Active"
    "maxUsage big50 = Some 5" "usageCount big50 = 4" "minAmount big50 = Some 5"
    by code_simp+
  with validateDiscount_characterisation [OF pos(1), of "''FREE''" shop zero_cap]
    validateDiscount_characterisation [OF pos(1), of "''save20''" shop]
    validateDiscount_characterisation [OF pos(2), of "''BIG50''" shop _ 5]
  show ?thesis by simp
qed

theorem validateDiscount_zero_cap_counterexample:
  "validateDiscount ''FREE'' 10 shop = Valid zero_cap
   \<and> getDiscountByCode ''FREE'' shop = Some zero_cap
   \<and> maxUsage zero_cap = Some 0
   \<and> \<not> usageCount zero_cap < 0
   \<and> spec_validateDiscount ''FREE'' 10 shop = Invalid UsageExceeded"
  by code_simp

text \<open>
  C8. The preview route returns the database it was given; \<open>n\<close> calls in a row with
  the same body give \<open>n\<close> times the same response and the same database; and on
  success the discount in the response is the stored row of that code, before and after
  the call.
\<close>

theorem preview_read_only:
  "snd (POST_validate body db) = db
   \<and> preview_calls n body db = (replicate n (fst (POST_validate body db)), db)
   \<and> (POST_validate body db = (Success res, db') \<longrightarrow>
        getDiscountByCode (trim (or_empty (code body))) db
          = Some (DiscountValidationResult.discount res)
        \<and> getDiscountByCode (trim (or_empty (code body))) db'
          = Some (DiscountValidationResult.discount res))"
proof (intro conjI impI)
  show "snd (POST_validate body db) = db" by (rule POST_validate_frame)
  show "preview_calls n body db = (replicate n (fst (POST_validate body db)), db)"
    by (rule preview_calls_eq)
next
  assume ok: "POST_validate body db = (Success res, db')"
  then have same: "db' = db" using POST_validate_frame [of body db] by simp
  from ok show "getDiscountByCode (trim (or_empty (code body))) db
          = Some (DiscountValidationResult.discount res)"
  proof (cases rule: POST_validate_Success)
    case (1 amt d)
    from 1(4) have "DiscountValidationResult.discount res = d" by simp
    with validateDiscount_Valid_lookup [OF 1(3)] show ?thesis by simp
  qed
  with same show "getDiscountByCode (trim (or_empty (code body))) db'
          = Some (DiscountValidationResult.discount res)" by simp
qed

theorem preview_read_only_witness:
  "POST_validate preview10 shop = (Success previewed10, shop)
   \<and> preview_calls 3 preview10 shop = ([Success previewed10, Success previewed10,
         Success previewed10], shop)
   \<and> getDiscountByCode ''BIG50'' shop = Some big50
   \<and> usageCount big50 = 4"
proof -
  have "trim (or_empty (code preview10)) = ''BIG50''"
    "DiscountValidationResult.discount previewed10 = big50" "usageCount big50 = 4"
    "replicate 3 (Success previewed10) = [Success previewed10, Success previewed10,
         Success previewed10]"
    by code_simp+
  with preview_read_only [of preview10 shop 3 previewed10 shop] preview_big50
  show ?thesis by simp
qed

text \<open>
  C9. For the row found under the code: a usage cap stored as 0 never gives usage
  exceeded, whatever the usage count, and a minimum amount stored as 0 never gives below
  minimum, whatever the order amount; an active row with cap 0 or minimum 0 (the other
  unset or 0 as well) is accepted.
\<close>

theorem zero_is_unset:
  assumes "getDiscountByCode c db = Some d"
  shows "(maxUsage d = Some 0 \<longrightarrow> validateDiscount c a db \<noteq> Invalid UsageExceeded)
    \<and> (minAmount d = Some 0 \<longrightarrow> (\<forall>m. validateDiscount c a db \<noteq> Invalid (BelowMinimum m)))
    \<and> (Discount.status d = Active \<longrightarrow> maxUsage d = Some 0 \<longrightarrow> minAmount d = None \<longrightarrow>
          validateDiscount c a db = Valid d)
    \<and> (Discount.status d = Active \<longrightarrow> maxUsage d = None \<longrightarrow> minAmount d = Some 0 \<longrightarrow>
          validateDiscount c a db = Valid d)
    \<and> (Discount.status d = Active \<longrightarrow> maxUsage d = Some 0 \<longrightarrow> minAmount d = Some 0 \<longrightarrow>
          validateDiscount c a db = Valid d)"
  using assms unfolding validateDiscount_def
  by (simp split: option.split)

theorem zero_is_unset_witness:
  "getDiscountByCode ''FREE'' shop = Some zero_cap
   \<and> maxUsage zero_cap = Some 0 \<and> minAmount zero_cap = Some 0 \<and> usageCount zero_cap = 7
   \<and> validateDiscount ''FREE'' (1/100) shop = Valid zero_cap"
proof -
  have found: "getDiscountByCode ''FREE'' shop = Some zero_cap" by code_simp
  have "maxUsage zero_cap = Some 0" "minAmount zero_cap = Some 0" "usageCount zero_cap = 7"
    "Discount.status zero_cap = Active"
    by code_simp+
  with zero_is_unset [OF found, of "1/100"] found show ?thesis by simp
qed

text \<open>
  C10. After a successful settlement with a non-blank discount code, the discount in
  the response is the row that the lookup by code returned before the settlement, and
  the row that the lookup returns afterwards is that row with its usage count
  incremented by 1: the usage count in the response is the stored one minus one.
\<close>

theorem response_discount_precedes_increment:
  assumes "POST_payment env body db = (Success res, db')"
    and "non_blank (discountCode body)"
  shows "PaymentResult.discount res \<noteq> None
    \<and> PaymentResult.discount res = getDiscountByCode (trim (or_empty (discountCode body))) db
    \<and> getDiscountByCode (trim (or_empty (discountCode body))) db' =
         map_option (\<lambda>d. d\<lparr>usageCount := usageCount d + 1\<rparr>) (PaymentResult.discount res)
    \<and> map_option usageCount (PaymentResult.discount res) =
         map_option (\<lambda>d. usageCount d - 1)
           (getDiscountByCode (trim (or_empty (discountCode body))) db')"
  using assms(1)
proof (cases rule: POST_payment_Success)
  case (1 ord da disc fa db1 upd ins)
  obtain d where disc: "disc = Some d"
  proof (cases disc)
    case None
    with 1(2) have "\<not> non_blank (discountCode body)" by (simp add: discount_phase_None(1))
    with assms(2) show ?thesis by simp
  qed (rule that)
  with 1(2) have ph: "discount_phase (discountCode body) ord db = Inr ((da, Some d, fa), db1)"
    by simp
  have valid: "validateDiscount (trim (or_empty (discountCode body))) (Order.amount ord) db = Valid d"
    and db1: "db1 = applyDiscount (Discount.discountId d) db"
    by (rule discount_phase_Some(2) [OF ph], rule discount_phase_Some(5) [OF ph])
  have before: "getDiscountByCode (trim (or_empty (discountCode body))) db = Some d"
    by (rule validateDiscount_Valid_lookup [OF valid])
  have "discounts db' = discounts db1"
    unfolding 1(12) 1(4) 1(3) by (simp add: createPaymentRecord_frame updateOrder_frame)
  then have "getDiscountByCode (trim (or_empty (discountCode body))) db' =
      getDiscountByCode (trim (or_empty (discountCode body))) db1"
    by (rule getDiscountByCode_cong)
  also have "\<dots> = Some (d\<lparr>usageCount := usageCount d + 1\<rparr>)"
    unfolding db1 by (simp add: getDiscountByCode_applyDiscount before)
  finally have after: "getDiscountByCode (trim (or_empty (discountCode body))) db' =
      Some (d\<lparr>usageCount := usageCount d + 1\<rparr>)" .
  have shown: "PaymentResult.discount res = Some d"
    unfolding 1(7) by (rule disc)
  show ?thesis
    unfolding shown before after by simp
qed

theorem response_discount_precedes_increment_witness:
  "PaymentResult.discount settled10 = Some big50
   \<and> getDiscountByCode ''BIG50'' shop = Some big50
   \<and> getDiscountByCode ''BIG50'' shop_paid10 = Some (big50\<lparr>usageCount := 5\<rparr>)
   \<and> usageCount big50 = 5 - 1"
proof -
  have nb: "non_blank (discountCode settle10)" by code_simp
  have "trim (or_empty (discountCode settle10)) = ''BIG50''"
    "PaymentResult.discount settled10 = Some big50" "usageCount big50 = 4"
    by code_simp+
  with response_discount_precedes_increment [OF settle_big50 nb] show ?thesis by simp
qed

end
